theory Spec2Isabelle
  imports Complex_Main
begin

section \<open>Strings and JavaScript values\<close>

text \<open>
  The server (\<^verbatim>\<open>src/server.js\<close>) receives JSON bodies.  Text is modelled as
  \<^typ>\<open>string\<close>, one character per code unit, for the code units below 256.  On
  these \<^verbatim>\<open>toLowerCase\<close> adds 32 to the letters \<^verbatim>\<open>A\<close>..\<^verbatim>\<open>Z\<close> and to the accented
  capitals 192..222 other than the multiplication sign 215, and leaves every other code
  unit alone; \<^verbatim>\<open>length\<close> is the number of characters.
\<close>

definition isUpperAZ :: "char \<Rightarrow> bool" where
  \<comment> \<open>the character class \<^verbatim>\<open>[A-Z]\<close>\<close>
  "isUpperAZ c = (let n = (of_char c :: nat) in 65 \<le> n \<and> n \<le> 90)"

definition isUpperLatin1 :: "char \<Rightarrow> bool" where
  "isUpperLatin1 c = (let n = (of_char c :: nat) in 192 \<le> n \<and> n \<le> 222 \<and> n \<noteq> 215)"

definition toLowerChar :: "char \<Rightarrow> char" where
  "toLowerChar c =
     (if isUpperAZ c \<or> isUpperLatin1 c then char_of ((of_char c :: nat) + 32) else c)"

definition toLowerCase :: "string \<Rightarrow> string" where
  "toLowerCase s = map toLowerChar s"

fun startsWith :: "string \<Rightarrow> string \<Rightarrow> bool" where
  "startsWith s [] = True"
| "startsWith [] (k # ks) = False"
| "startsWith (c # cs) (k # ks) = (c = k \<and> startsWith cs ks)"

fun includesStr :: "string \<Rightarrow> string \<Rightarrow> bool" where
  \<comment> \<open>\<^verbatim>\<open>content.includes(keyword)\<close>: substring containment\<close>
  "includesStr [] k = (k = [])"
| "includesStr (c # cs) k = (startsWith (c # cs) k \<or> includesStr cs k)"

fun jsSplit :: "char \<Rightarrow> string \<Rightarrow> string list" where
  \<comment> \<open>\<^verbatim>\<open>s.split(sep)\<close> for a one-character separator\<close>
  "jsSplit sep [] = [[]]"
| "jsSplit sep (x # xs) =
     (if x = sep then [] # jsSplit sep xs
      else (case jsSplit sep xs of [] \<Rightarrow> [[x]] | y # ys \<Rightarrow> (x # y) # ys))"

fun index :: "'a list \<Rightarrow> nat \<Rightarrow> 'a option" where
  \<comment> \<open>\<^verbatim>\<open>xs[i]\<close>; out of range is \<^verbatim>\<open>undefined\<close>\<close>
  "index [] i = None"
| "index (x # xs) 0 = Some x"
| "index (x # xs) (Suc i) = index xs i"

text \<open>
  A request field that the code tests for truthiness is one of \<^verbatim>\<open>undefined\<close>
  (the key is absent), \<^verbatim>\<open>null\<close> or a string.
\<close>

datatype jsval = JUndefined | JNull | JStr string

definition Boolean :: "jsval \<Rightarrow> bool" where
  \<comment> \<open>JavaScript truthiness: \<^verbatim>\<open>undefined\<close>, \<^verbatim>\<open>null\<close> and \<^verbatim>\<open>''\<close> are falsy\<close>
  "Boolean v = (case v of JUndefined \<Rightarrow> False | JNull \<Rightarrow> False | JStr s \<Rightarrow> s \<noteq> [])"

definition isStr :: "jsval \<Rightarrow> bool" where
  "isStr v = (case v of JStr s \<Rightarrow> True | _ \<Rightarrow> False)"

definition toStr :: "jsval \<Rightarrow> string" where
  \<comment> \<open>the text of a value inside a template literal or next to a string under \<^verbatim>\<open>+\<close>\<close>
  "toStr v = (case v of JUndefined \<Rightarrow> ''undefined'' | JNull \<Rightarrow> ''null'' | JStr s \<Rightarrow> s)"

text \<open>
  The quotient \<^verbatim>\<open>caps.length / total\<close> is a JavaScript number.  Both operands are
  string lengths, so the quotient is \<^verbatim>\<open>NaN\<close> (0/0), \<^verbatim>\<open>Infinity\<close> (n/0) or the
  correctly rounded value of a fraction of two non-negative integers.  The literal
  \<^verbatim>\<open>0.3\<close> is the double nearest to 3/10, rounding is monotone, and a fraction c/t
  with c/t > 3/10 exceeds 3/10 by at least 1/(10 t), far more than the spacing of doubles
  near 0.3 for every string length a JavaScript engine admits; so the comparison
  \<^verbatim>\<open>caps.length / total > 0.3\<close> has the value of the exact comparison with 3/10, which
  \<open>jsgt\<close> computes over the rationals.
\<close>

datatype jsnum = NaN | Infinity | Num rat

definition jsdiv :: "nat \<Rightarrow> nat \<Rightarrow> jsnum" where
  "jsdiv a b = (if b = 0 then (if a = 0 then NaN else Infinity) else Num (of_nat a / of_nat b))"

fun jsgt :: "jsnum \<Rightarrow> rat \<Rightarrow> bool" where
  \<comment> \<open>\<^verbatim>\<open>x > r\<close>; every comparison with \<^verbatim>\<open>NaN\<close> is false\<close>
  "jsgt NaN r = False"
| "jsgt Infinity r = True"
| "jsgt (Num q) r = (q > r)"


section \<open>Recipient validator\<close>

text \<open>
  \<^verbatim>\<open>validator\<close>, \<^verbatim>\<open>dns\<close> and \<^verbatim>\<open>nodemailer\<close> are libraries outside the repository.
  \<^verbatim>\<open>validator.isEmail\<close> is a parameter of the model (a pure predicate on strings);
  \<^verbatim>\<open>validator.isIn(str, array)\<close> is membership of \<^verbatim>\<open>str\<close> in the array.  The DNS
  resolver, the mail transport and the clock and random source behind the message
  identifier are oracles on an abstract world state \<open>'w\<close>, so that their answers may
  change from one call to the next.

  A \<^verbatim>\<open>TypeError\<close> is thrown by the engine where the code calls something that is not
  a function or reads a property of \<^verbatim>\<open>undefined\<close> or \<^verbatim>\<open>null\<close>; the wording of its
  message is the engine's, a parameter of the model.
\<close>

datatype misuse =
    CallOfNonFunction string
  | PropertyOfNullish jsval string

text \<open>
  \<open>CallOfNonFunction e\<close>: the expression \<open>e\<close> is called and is not a function.
  \<open>PropertyOfNullish v p\<close>: the property \<open>p\<close> is read of \<open>v\<close>, which is
  \<^verbatim>\<open>undefined\<close> or \<^verbatim>\<open>null\<close>.

  The HTML of a message is text, or, when \<^verbatim>\<open>templates[type]\<close> finds \<open>type\<close> among the
  members every object inherits, that inherited member (a function or an object).
\<close>

datatype htmlValue = HtmlText string | InheritedMember string

record attachment =
  filename :: string
  content :: string
  contentType :: string
  encoding :: string

record mailOptions =
  mo_from_name :: string
  mo_from_address :: "string option"
  mo_to :: jsval
  mo_cc :: "jsval list option"
  mo_bcc :: "jsval list option"
  mo_subject :: jsval
  mo_text :: jsval
  mo_html :: htmlValue
  mo_attachments :: "attachment list"
  mo_headers :: "(string \<times> string) list"
  mo_clickTracking :: bool
  mo_openTracking :: bool

record info =
  info_messageId :: string
  info_accepted :: "string list"
  info_rejected :: "string list"

datatype exn = Error (message: string) | TypeError (message: string)

record 'w env =
  isEmail :: "string \<Rightarrow> bool"
  resolveMx :: "string \<Rightarrow> 'w \<Rightarrow> nat option \<times> 'w"
  transportSendMail :: "mailOptions \<Rightarrow> 'w \<Rightarrow> (exn + info) \<times> 'w"
  stamp :: "'w \<Rightarrow> string \<times> 'w"
  typeErrorMessage :: "misuse \<Rightarrow> string"
  FROM_NAME :: "string option"
  FROM_EMAIL :: "string option"
  EMAIL_USER :: "string option"
  DOMAIN_NAME :: "string option"
  notificationLayout :: "string \<Rightarrow> string \<Rightarrow> string"
  transactionalLayout :: "string \<Rightarrow> string \<Rightarrow> string"

text \<open>
  \<open>resolveMx env domain w\<close> is \<open>None\<close> when the lookup rejects and \<open>Some n\<close> when
  it returns \<open>n\<close> MX records.  \<open>transportSendMail env mailOptions w\<close> is \<open>Inl error\<close>
  when \<^verbatim>\<open>transporter.sendMail\<close> rejects with the exception \<open>error\<close>.
  \<open>stamp env w\<close> is the text of \<^verbatim>\<open>${Date.now()}.${Math.random()}\<close>.  The two
  layouts are the fixed HTML of \<^verbatim>\<open>createEmailTemplate\<close> as functions of the embedded
  content and of the footer's domain; no property below looks inside them.

  The effects of a request are recorded, in the order they happen, in a trace.
\<close>

datatype event =
    MxLookup string
  | SendMail mailOptions
  | ConsoleLog string
  | ConsoleError exn
  | Delay nat

record 'w sys =
  world :: 'w
  trace :: "event list"

definition emit :: "event \<Rightarrow> 'w sys \<Rightarrow> 'w sys" where
  "emit e s = s\<lparr>trace := trace s @ [e]\<rparr>"

definition isIn :: "string \<Rightarrow> string list \<Rightarrow> bool" where
  "isIn str values = (str \<in> set values)"

definition denylist :: "string list" where
  "denylist = [''test@test.com'', ''example@example.com'', ''admin@admin.com'']"

definition validateEmail :: "'w env \<Rightarrow> string \<Rightarrow> bool" where
  "validateEmail env email = (isEmail env email \<and> \<not> isIn (toLowerCase email) denylist)"

definition validateDomain :: "'w env \<Rightarrow> string \<Rightarrow> 'w sys \<Rightarrow> bool \<times> 'w sys" where
  \<comment> \<open>with no \<^verbatim>\<open>@\<close> the domain is \<^verbatim>\<open>undefined\<close>, \<^verbatim>\<open>resolveMx\<close> throws before any
      query and the \<^verbatim>\<open>catch\<close> returns false\<close>
  "validateDomain env email s =
     (case index (jsSplit CHR ''@'' email) 1 of
        None \<Rightarrow> (False, s)
      | Some domain \<Rightarrow>
          (case resolveMx env domain (world s) of
             (mxRecords, w') \<Rightarrow>
               ((case mxRecords of None \<Rightarrow> False | Some n \<Rightarrow> n > 0),
                emit (MxLookup domain) (s\<lparr>world := w'\<rparr>))))"


section \<open>Content screener\<close>

definition spamKeywords :: "string list" where
  "spamKeywords =
    [''free money'', ''click here now'', ''urgent action required'',
     ''congratulations you won'', ''limited time offer'', ''act now'',
     ''make money fast'', ''no obligation'', ''risk free'']"

definition suspiciousCount :: "string \<Rightarrow> string \<Rightarrow> string \<Rightarrow> nat" where
  "suspiciousCount subject text' html =
     (let content = toLowerCase (subject @ '' '' @ text' @ '' '' @ html)
      in length (filter (\<lambda>keyword. includesStr content keyword) spamKeywords))"

definition validateEmailContent :: "string \<Rightarrow> string \<Rightarrow> string \<Rightarrow> bool" where
  "validateEmailContent subject text' html =
     (if suspiciousCount subject text' html > 2 then False
      else
        let caps = filter isUpperAZ (subject @ text');
            total = length (subject @ text')
        in if jsgt (jsdiv (length caps) total) (3 / 10) then False else True)"


definition validateEmailContentCall :: "'w env \<Rightarrow> jsval \<Rightarrow> jsval \<Rightarrow> string \<Rightarrow> exn + bool" where
  \<comment> \<open>the call \<^verbatim>\<open>validateEmailContent(subject, text, html || '')\<close> of \<^verbatim>\<open>sendEmail\<close>, where
      \<^verbatim>\<open>subject\<close> and \<^verbatim>\<open>text\<close> need not be strings: the template literal turns them into
      text, and so does \<^verbatim>\<open>subject + text\<close> when one of them is a string; when neither is,
      the sum is a number, which has no \<^verbatim>\<open>match\<close>\<close>
  "validateEmailContentCall env subject text' html =
     (if isStr subject \<or> isStr text'
      then Inr (validateEmailContent (toStr subject) (toStr text') html)
      else if suspiciousCount (toStr subject) (toStr text') html > 2 then Inr False
      else Inl (TypeError (typeErrorMessage env (CallOfNonFunction ''(subject + text).match''))))"


section \<open>Template renderer\<close>

definition orElse :: "string option \<Rightarrow> string \<Rightarrow> string" where
  \<comment> \<open>\<^verbatim>\<open>process.env.X || default\<close>: an unset or empty variable gives the default\<close>
  "orElse v d = (case v of None \<Rightarrow> d | Some x \<Rightarrow> if x = [] then d else x)"

definition orVar :: "string option \<Rightarrow> string option \<Rightarrow> string option" where
  \<comment> \<open>\<^verbatim>\<open>process.env.X || process.env.Y\<close>\<close>
  "orVar v u = (case v of None \<Rightarrow> u | Some x \<Rightarrow> if x = [] then u else Some x)"

definition interpolate :: "string option \<Rightarrow> string" where
  \<comment> \<open>\<^verbatim>\<open>${process.env.X}\<close> inside a template literal\<close>
  "interpolate v = (case v of None \<Rightarrow> ''undefined'' | Some x \<Rightarrow> x)"

definition objectPrototypeKeys :: "string list" where
  \<comment> \<open>the members every object literal inherits; each is a function or an object, so truthy\<close>
  "objectPrototypeKeys =
     [''constructor'', ''__defineGetter__'', ''__defineSetter__'', ''hasOwnProperty'',
      ''__lookupGetter__'', ''__lookupSetter__'', ''isPrototypeOf'', ''propertyIsEnumerable'',
      ''toString'', ''valueOf'', ''__proto__'', ''toLocaleString'']"

definition createEmailTemplate :: "'w env \<Rightarrow> string \<Rightarrow> string \<Rightarrow> htmlValue" where
  \<comment> \<open>\<^verbatim>\<open>templates[type] || templates.notification\<close>: an own key of \<^verbatim>\<open>templates\<close>, else an
      inherited member, else the notification layout\<close>
  "createEmailTemplate env content' type =
     (let domain = orElse (DOMAIN_NAME env) ''your-domain.com'';
          templates = [(''notification'', notificationLayout env content' domain),
                       (''transactional'', transactionalLayout env content' domain)]
      in case map_of templates type of
           Some t \<Rightarrow> HtmlText t
         | None \<Rightarrow>
             if type \<in> set objectPrototypeKeys then InheritedMember type
             else HtmlText (notificationLayout env content' domain))"

definition replaceNewlines :: "string \<Rightarrow> string" where
  \<comment> \<open>\<^verbatim>\<open>text.replace(/\n/g, '<br>')\<close>\<close>
  "replaceNewlines s = concat (map (\<lambda>c. if c = CHR 0x0A then ''<br>'' else [c]) s)"


section \<open>Composition and delivery: \<^verbatim>\<open>sendEmail\<close>\<close>

text \<open>
  The request body.  \<open>to\<close>, \<open>subject\<close>, \<open>text\<close> and \<open>html\<close> are strings, \<^verbatim>\<open>null\<close>
  or absent (\<^verbatim>\<open>undefined\<close>); \<open>cc\<close>, \<open>bcc\<close>, \<open>templateType\<close> and \<open>attachments\<close> are
  \<open>None\<close> when the key is absent, where the destructuring defaults of \<^verbatim>\<open>sendEmail\<close>
  apply.
\<close>

record emailData =
  to :: jsval
  cc :: "jsval list option"
  bcc :: "jsval list option"
  subject :: jsval
  text' :: jsval
  html :: jsval
  templateType :: "string option"
  attachments :: "attachment list option"

record deliveryResult =
  success :: bool
  messageId :: string
  accepted :: "string list"
  rejected :: "string list"

definition withDefault :: "'a option \<Rightarrow> 'a \<Rightarrow> 'a" where
  \<comment> \<open>a destructuring default \<^verbatim>\<open>x = d\<close>\<close>
  "withDefault v d = (case v of None \<Rightarrow> d | Some x \<Rightarrow> x)"

definition allRecipients :: "emailData \<Rightarrow> string list" where
  \<comment> \<open>\<^verbatim>\<open>[to, ...cc, ...bcc].filter(Boolean)\<close>: what is left are the non-empty strings\<close>
  "allRecipients emailData =
     [email. JStr email \<leftarrow> to emailData # withDefault (cc emailData) [] @ withDefault (bcc emailData) [],
             email \<noteq> []]"

fun validateAll :: "'w env \<Rightarrow> string list \<Rightarrow> 'w sys \<Rightarrow> (exn + unit) \<times> 'w sys" where
  \<comment> \<open>the loop \<^verbatim>\<open>for (const email of allRecipients)\<close> of \<^verbatim>\<open>sendEmail\<close>\<close>
  "validateAll env [] s = (Inr (), s)"
| "validateAll env (email # rest) s =
     (if \<not> validateEmail env email
      then (Inl (Error (''Invalid email address: '' @ email)), s)
      else (case validateDomain env email s of
              (domainValid, s') \<Rightarrow>
                if \<not> domainValid
                then (Inl (Error (''Invalid domain for email: '' @ email)), s')
                else validateAll env rest s'))"

definition orEmpty :: "jsval \<Rightarrow> string" where
  \<comment> \<open>\<^verbatim>\<open>html || ''\<close>\<close>
  "orEmpty v = (case v of JStr x \<Rightarrow> x | _ \<Rightarrow> [])"

definition finalHtml :: "'w env \<Rightarrow> emailData \<Rightarrow> exn + htmlValue" where
  \<comment> \<open>\<^verbatim>\<open>html || createEmailTemplate(text.replace(/\n/g, '<br>'), templateType)\<close>\<close>
  "finalHtml env emailData =
     (if Boolean (html emailData) then Inr (HtmlText (orEmpty (html emailData)))
      else (case text' emailData of
              JStr t \<Rightarrow>
                Inr (createEmailTemplate env (replaceNewlines t)
                       (withDefault (templateType emailData) ''notification''))
            | v \<Rightarrow> Inl (TypeError (typeErrorMessage env (PropertyOfNullish v ''replace'')))))"

definition compose :: "'w env \<Rightarrow> emailData \<Rightarrow> htmlValue \<Rightarrow> string \<Rightarrow> mailOptions" where
  \<comment> \<open>the object literal \<^verbatim>\<open>mailOptions\<close>; \<open>stampText\<close> is the timestamp and random part
      of the message identifier\<close>
  "compose env emailData finalHtml' stampText =
     (let cc' = withDefault (cc emailData) [];
          bcc' = withDefault (bcc emailData) []
      in \<lparr> mo_from_name = orElse (FROM_NAME env) ''Your App'',
           mo_from_address = orVar (FROM_EMAIL env) (EMAIL_USER env),
           mo_to = to emailData,
           mo_cc = (if length cc' > 0 then Some cc' else None),
           mo_bcc = (if length bcc' > 0 then Some bcc' else None),
           mo_subject = subject emailData,
           mo_text = text' emailData,
           mo_html = finalHtml',
           mo_attachments = withDefault (attachments emailData) [],
           mo_headers =
             [(''X-Mailer'', ''NodeJS Email Server v1.0''),
              (''X-Priority'', ''3''),
              (''List-Unsubscribe'', ''<mailto:unsubscribe@'' @ interpolate (DOMAIN_NAME env) @ ''>''),
              (''Message-ID'', ''<'' @ stampText @ ''@'' @ interpolate (DOMAIN_NAME env) @ ''>'')],
           mo_clickTracking = False,
           mo_openTracking = False \<rparr>)"

definition deliver :: "'w env \<Rightarrow> mailOptions \<Rightarrow> 'w sys \<Rightarrow> (exn + deliveryResult) \<times> 'w sys" where
  \<comment> \<open>the final \<^verbatim>\<open>try { ... } catch (error) { ...; throw error; }\<close> of \<^verbatim>\<open>sendEmail\<close>;
      \<open>Inl\<close> is the exception thrown to the caller\<close>
  "deliver env mailOptions s =
     (case transportSendMail env mailOptions (world s) of
        (Inr info, w') \<Rightarrow>
          (Inr \<lparr> success = True,
                 messageId = info_messageId info,
                 accepted = info_accepted info,
                 rejected = info_rejected info \<rparr>,
           emit (ConsoleLog (''Email sent successfully: '' @ info_messageId info))
             (emit (SendMail mailOptions) (s\<lparr>world := w'\<rparr>)))
      | (Inl error, w') \<Rightarrow>
          (Inl error,
           emit (ConsoleError error)
             (emit (SendMail mailOptions) (s\<lparr>world := w'\<rparr>))))"

definition sendEmail :: "'w env \<Rightarrow> emailData \<Rightarrow> 'w sys \<Rightarrow> (exn + deliveryResult) \<times> 'w sys" where
  \<comment> \<open>\<^verbatim>\<open>createTransporter()\<close> only builds the transport object\<close>
  "sendEmail env emailData s =
     (case validateAll env (allRecipients emailData) s of
        (Inl error, s1) \<Rightarrow> (Inl error, s1)
      | (Inr u, s1) \<Rightarrow>
          (case validateEmailContentCall env (subject emailData) (text' emailData)
                  (orEmpty (html emailData)) of
             Inl error \<Rightarrow> (Inl error, s1)
           | Inr acceptable \<Rightarrow>
               if \<not> acceptable
               then (Inl (Error ''Email content appears to be spam-like''), s1)
               else (case finalHtml env emailData of
                       Inl error \<Rightarrow> (Inl error, s1)
                     | Inr finalHtml' \<Rightarrow>
                         (case stamp env (world s1) of
                            (stampText, w2) \<Rightarrow>
                              deliver env (compose env emailData finalHtml' stampText)
                                (s1\<lparr>world := w2\<rparr>)))))"


section \<open>Request orchestrator\<close>

datatype outcome =
    Sent jsval string
  | Failed jsval string


fun outcome_success :: "outcome \<Rightarrow> bool" where
  "outcome_success (Sent e m) = True"
| "outcome_success (Failed e m) = False"

datatype json =
    ResultBody deliveryResult
  | ErrorBody string
  | ResultsBody "outcome list"

text \<open>
  \<open>ErrorBody error\<close> is \<^verbatim>\<open>{ success: false, error }\<close> and \<open>ResultsBody results\<close> is
  \<^verbatim>\<open>{ results }\<close>.
\<close>

record response =
  status :: nat
  body :: json

definition post_send_email :: "'w env \<Rightarrow> emailData \<Rightarrow> 'w sys \<Rightarrow> response \<times> 'w sys" where
  \<comment> \<open>the handler of \<^verbatim>\<open>POST /send-email\<close>, behind the rate limiter\<close>
  "post_send_email env reqBody s =
     (case sendEmail env reqBody s of
        (Inr result, s') \<Rightarrow> (\<lparr> status = 200, body = ResultBody result \<rparr>, s')
      | (Inl error, s') \<Rightarrow> (\<lparr> status = 400, body = ErrorBody (message error) \<rparr>, s'))"

text \<open>
  The shared \<^verbatim>\<open>template\<close> of a bulk request carries any subset of the keys of an
  entry; \<^verbatim>\<open>{ ...emailData, ...template }\<close> takes every key the template has from the
  template and the others from the entry.
\<close>

record template =
  t_to :: jsval
  t_cc :: "jsval list option"
  t_bcc :: "jsval list option"
  t_subject :: jsval
  t_text :: jsval
  t_html :: jsval
  t_templateType :: "string option"
  t_attachments :: "attachment list option"

text \<open>
  The \<^verbatim>\<open>emails\<close> key of a bulk body is either not an array or an array.  An entry of
  the array is \<^verbatim>\<open>null\<close> or an object; an entry that is a number, a string or a boolean
  spreads to no key of a request and has no \<^verbatim>\<open>to\<close>, as the object without keys.
\<close>

datatype entry = NullEntry | Obj emailData

datatype emailsField = NotArray | Array "entry list"

record bulkBody =
  emails :: emailsField
  template :: "template option"

definition emptyObject :: emailData where
  "emptyObject =
     \<lparr> to = JUndefined, cc = None, bcc = None, subject = JUndefined, text' = JUndefined,
       html = JUndefined, templateType = None, attachments = None \<rparr>"

definition override :: "'a option \<Rightarrow> 'a option \<Rightarrow> 'a option" where
  "override own shared = (case shared of None \<Rightarrow> own | Some x \<Rightarrow> Some x)"

definition overrideVal :: "jsval \<Rightarrow> jsval \<Rightarrow> jsval" where
  "overrideVal own shared = (if shared = JUndefined then own else shared)"

definition spread :: "entry \<Rightarrow> template option \<Rightarrow> emailData" where
  \<comment> \<open>\<^verbatim>\<open>{ ...emailData, ...template }\<close>; spreading \<^verbatim>\<open>null\<close> adds no key\<close>
  "spread emailData tpl =
     (let own = (case emailData of NullEntry \<Rightarrow> emptyObject | Obj d \<Rightarrow> d)
      in case tpl of
           None \<Rightarrow> own
         | Some t \<Rightarrow>
             \<lparr> to = overrideVal (to own) (t_to t),
               cc = override (cc own) (t_cc t),
               bcc = override (bcc own) (t_bcc t),
               subject = overrideVal (subject own) (t_subject t),
               text' = overrideVal (text' own) (t_text t),
               html = overrideVal (html own) (t_html t),
               templateType = override (templateType own) (t_templateType t),
               attachments = override (attachments own) (t_attachments t) \<rparr>)"

definition entryTo :: "'w env \<Rightarrow> entry \<Rightarrow> exn + jsval" where
  \<comment> \<open>\<^verbatim>\<open>emailData.to\<close>\<close>
  "entryTo env emailData =
     (case emailData of
        NullEntry \<Rightarrow> Inl (TypeError (typeErrorMessage env (PropertyOfNullish JNull ''to'')))
      | Obj d \<Rightarrow> Inr (to d))"

definition pushSuccess :: "'w env \<Rightarrow> entry \<Rightarrow> deliveryResult \<Rightarrow> outcome list \<Rightarrow> exn + outcome list" where
  \<comment> \<open>\<^verbatim>\<open>results.push({ email: emailData.to, success: true, messageId: result.messageId })\<close>\<close>
  "pushSuccess env emailData result results =
     (case entryTo env emailData of
        Inl error \<Rightarrow> Inl error
      | Inr email \<Rightarrow> Inr (results @ [Sent email (messageId result)]))"

definition pushFailure :: "'w env \<Rightarrow> entry \<Rightarrow> exn \<Rightarrow> outcome list \<Rightarrow> exn + outcome list" where
  \<comment> \<open>the \<^verbatim>\<open>catch\<close> block:
      \<^verbatim>\<open>results.push({ email: emailData.to, success: false, error: error.message })\<close>\<close>
  "pushFailure env emailData error results =
     (case entryTo env emailData of
        Inl error' \<Rightarrow> Inl error'
      | Inr email \<Rightarrow> Inr (results @ [Failed email (message error)]))"

definition delay :: "nat \<Rightarrow> 'w sys \<Rightarrow> 'w sys" where
  \<comment> \<open>\<^verbatim>\<open>await new Promise(resolve => setTimeout(resolve, ms))\<close>\<close>
  "delay ms s = emit (Delay ms) s"

fun bulkLoop :: "'w env \<Rightarrow> template option \<Rightarrow> entry list \<Rightarrow> outcome list \<Rightarrow> 'w sys
                 \<Rightarrow> (exn + outcome list) \<times> 'w sys" where
  \<comment> \<open>the loop \<^verbatim>\<open>for (const emailData of emails)\<close> with its accumulator \<^verbatim>\<open>results\<close>; an
      exception of the \<^verbatim>\<open>try\<close> block goes to the \<^verbatim>\<open>catch\<close> block, and an exception of the
      \<^verbatim>\<open>catch\<close> block leaves the loop and the handler (\<open>Inl\<close>)\<close>
  "bulkLoop env tpl [] results s = (Inr results, s)"
| "bulkLoop env tpl (emailData # rest) results s =
     (case sendEmail env (spread emailData tpl) s of
        (Inr result, s') \<Rightarrow>
          (case pushSuccess env emailData result results of
             Inr results' \<Rightarrow> bulkLoop env tpl rest results' (delay 1000 s')
           | Inl error \<Rightarrow>
               (case pushFailure env emailData error results of
                  Inr results' \<Rightarrow> bulkLoop env tpl rest results' s'
                | Inl error' \<Rightarrow> (Inl error', s')))
      | (Inl error, s') \<Rightarrow>
          (case pushFailure env emailData error results of
             Inr results' \<Rightarrow> bulkLoop env tpl rest results' s'
           | Inl error' \<Rightarrow> (Inl error', s')))"

definition post_send_bulk :: "'w env \<Rightarrow> bulkBody \<Rightarrow> 'w sys \<Rightarrow> (exn + response) \<times> 'w sys" where
  \<comment> \<open>the handler of \<^verbatim>\<open>POST /send-bulk\<close>, behind the rate limiter; \<open>Inl\<close> when the
      handler ends in an exception and sends no response\<close>
  "post_send_bulk env reqBody s =
     (case emails reqBody of
        NotArray \<Rightarrow>
          (Inr \<lparr> status = 400, body = ErrorBody ''Maximum 10 emails allowed per bulk request'' \<rparr>, s)
      | Array es \<Rightarrow>
          if length es > 10
          then (Inr \<lparr> status = 400,
                       body = ErrorBody ''Maximum 10 emails allowed per bulk request'' \<rparr>, s)
          else (case bulkLoop env (template reqBody) es [] s of
                  (Inr results, s') \<Rightarrow> (Inr \<lparr> status = 200, body = ResultsBody results \<rparr>, s')
                | (Inl error, s') \<Rightarrow> (Inl error, s')))"


section \<open>Vocabulary of the properties\<close>

definition delays :: "event list \<Rightarrow> nat list" where
  \<comment> \<open>the pauses of a trace, in order, in milliseconds\<close>
  "delays tr = [ms. Delay ms \<leftarrow> tr]"

definition lookups :: "string list \<Rightarrow> event list" where
  \<comment> \<open>one MX query per address, for the domain \<^verbatim>\<open>email.split('@')[1]\<close>\<close>
  "lookups addresses = [MxLookup domain. Some domain \<leftarrow> map (\<lambda>email. index (jsSplit CHR ''@'' email) 1) addresses]"

definition transportCalls :: "event list \<Rightarrow> mailOptions list" where
  "transportCalls tr = [m. SendMail m \<leftarrow> tr]"

definition outcomeOf :: "emailData \<Rightarrow> exn + deliveryResult \<Rightarrow> outcome" where
  \<comment> \<open>the entry a bulk response holds for \<open>emailData\<close> when \<^verbatim>\<open>sendEmail\<close> returned
      (\<open>Inr\<close>) or threw (\<open>Inl\<close>)\<close>
  "outcomeOf emailData r =
     (case r of
        Inr result \<Rightarrow> Sent (to emailData) (messageId result)
      | Inl error \<Rightarrow> Failed (to emailData) (message error))"

fun thread :: "('a \<Rightarrow> 's \<Rightarrow> 'b \<times> 's) \<Rightarrow> 'a list \<Rightarrow> 's \<Rightarrow> 'b list \<times> 's" where
  \<comment> \<open>runs \<open>f\<close> on the elements from left to right, each in the state the one before
      left, and collects the results in that order\<close>
  "thread f [] s = ([], s)"
| "thread f (x # xs) s =
     (case f x s of (y, s1) \<Rightarrow> (case thread f xs s1 of (ys, s2) \<Rightarrow> (y # ys, s2)))"

definition entryStep :: "'w env \<Rightarrow> template option \<Rightarrow> emailData \<Rightarrow> 'w sys \<Rightarrow> outcome \<times> 'w sys" where
  \<comment> \<open>what the specification asks of one object entry of a bulk request: the pipeline
      runs on the entry merged with the template, its outcome is recorded under the
      entry's own \<^verbatim>\<open>to\<close>, and a pause of 1000 ms follows when the send succeeded\<close>
  "entryStep env tpl d s =
     (case sendEmail env (spread (Obj d) tpl) s of
        (r, s1) \<Rightarrow> (outcomeOf d r, if isl r then s1 else emit (Delay 1000) s1))"


section \<open>A sample environment\<close>

text \<open>
  A small closed environment on which the properties are exercised: an address is
  well-formed when it contains \<^verbatim>\<open>@\<close>, the domain \<^verbatim>\<open>nomx.test\<close> has no MX record,
  and the relay refuses every message whose subject is \<^verbatim>\<open>bounce\<close>.
\<close>

definition sampleEnv :: "unit env" where
  "sampleEnv =
     \<lparr> isEmail = (\<lambda>email. CHR ''@'' \<in> set email),
       resolveMx = (\<lambda>domain w. (if domain = ''nomx.test'' then Some 0 else Some 1, w)),
       transportSendMail =
         (\<lambda>m w. (if mo_subject m = JStr ''bounce'' then Inl (Error ''connection refused'')
                  else Inr \<lparr> info_messageId = ''<1@relay>'',
                             info_accepted = [],
                             info_rejected = [] \<rparr>, w)),
       stamp = (\<lambda>w. (''1700000000000.0.5'', w)),
       typeErrorMessage =
         (\<lambda>m. case m of
                 CallOfNonFunction e \<Rightarrow> e @ '' is not a function''
               | PropertyOfNullish v p \<Rightarrow> ''Cannot read property '' @ p @ '' of '' @ toStr v),
       FROM_NAME = None,
       FROM_EMAIL = Some ''noreply@corp.test'',
       EMAIL_USER = None,
       DOMAIN_NAME = Some ''corp.test'',
       notificationLayout = (\<lambda>c d. ''<div>'' @ c @ ''</div><p>'' @ d @ ''</p>''),
       transactionalLayout = (\<lambda>c d. ''<div>'' @ c @ ''</div><hr><p>'' @ d @ ''</p>'') \<rparr>"

definition sampleState :: "unit sys" where
  "sampleState = \<lparr> world = (), trace = [] \<rparr>"

definition sampleMail :: "string \<Rightarrow> string \<Rightarrow> emailData" where
  "sampleMail recipient subj =
     \<lparr> to = JStr recipient, cc = None, bcc = None, subject = JStr subj,
       text' = JStr ''See you at 10am.'', html = JUndefined, templateType = None,
       attachments = None \<rparr>"

definition recipientsRequest :: emailData where
  \<comment> \<open>the second of four recipients has a domain without MX record\<close>
  "recipientsRequest =
     \<lparr> to = JStr ''amy@corp.test'',
       cc = Some [JStr ''bob@nomx.test'', JStr ''not-an-address''],
       bcc = Some [JStr ''eve@corp.test''], subject = JStr ''Meeting tomorrow'',
       text' = JStr ''See you at 10am.'', html = JUndefined, templateType = None,
       attachments = None \<rparr>"

definition falsyRequest :: emailData where
  \<comment> \<open>no \<^verbatim>\<open>to\<close>, and only falsy entries in \<^verbatim>\<open>cc\<close> and \<^verbatim>\<open>bcc\<close>\<close>
  "falsyRequest =
     \<lparr> to = JUndefined, cc = Some [JNull, JStr []], bcc = Some [JUndefined],
       subject = JStr ''Meeting tomorrow'', text' = JStr ''See you at 10am.'',
       html = JUndefined, templateType = None, attachments = None \<rparr>"

definition bounceThenOk :: bulkBody where
  "bounceThenOk =
     \<lparr> emails = Array [Obj (sampleMail ''amy@corp.test'' ''bounce''),
                       Obj (sampleMail ''bob@corp.test'' ''Meeting tomorrow'')],
       template = None \<rparr>"




definition sampleComposed :: "string \<Rightarrow> string \<Rightarrow> mailOptions" where
  \<comment> \<open>the message \<^verbatim>\<open>sendEmail\<close> composes for \<open>sampleMail recipient subj\<close>\<close>
  "sampleComposed recipient subj =
     compose sampleEnv (sampleMail recipient subj)
       (createEmailTemplate sampleEnv ''See you at 10am.'' ''notification'')
       ''1700000000000.0.5''"

definition nullWithTemplate :: bulkBody where
  \<comment> \<open>a single \<^verbatim>\<open>null\<close> entry under a template that holds a whole message\<close>
  "nullWithTemplate =
     \<lparr> emails = Array [NullEntry],
       template =
         Some \<lparr> t_to = JStr ''amy@corp.test'', t_cc = None, t_bcc = None,
                t_subject = JStr ''Meeting tomorrow'', t_text = JStr ''See you at 10am.'',
                t_html = JUndefined, t_templateType = None, t_attachments = None \<rparr> \<rparr>"


section \<open>Auxiliary facts\<close>

subsection \<open>Substrings and the keyword count\<close>

lemma startsWith_iff: "startsWith s k \<longleftrightarrow> (\<exists>q. s = k @ q)"
  by (induction s k rule: startsWith.induct) auto

lemma includesStr_iff: "includesStr s k \<longleftrightarrow> (\<exists>p q. s = p @ k @ q)"
proof (induction s)
  case Nil
  then show ?case by simp
next
  case (Cons c cs)
  show ?case
  proof
    assume "includesStr (c # cs) k"
    then consider "startsWith (c # cs) k" | "includesStr cs k" by auto
    then show "\<exists>p q. c # cs = p @ k @ q"
    proof cases
      case 1
      then obtain q where "c # cs = k @ q" by (auto simp: startsWith_iff)
      then have "c # cs = [] @ k @ q" by simp
      then show ?thesis by blast
    next
      case 2
      then obtain p q where "cs = p @ k @ q" using Cons.IH by blast
      then have "c # cs = (c # p) @ k @ q" by simp
      then show ?thesis by blast
    qed
  next
    assume "\<exists>p q. c # cs = p @ k @ q"
    then obtain p q where pq: "c # cs = p @ k @ q" by blast
    show "includesStr (c # cs) k"
    proof (cases p)
      case Nil
      with pq have "startsWith (c # cs) k" by (auto simp: startsWith_iff)
      then show ?thesis by simp
    next
      case (Cons a p')
      with pq have "cs = p' @ k @ q" by simp
      then have "includesStr cs k" using Cons.IH by blast
      then show ?thesis by simp
    qed
  qed
qed

lemma distinct_spamKeywords: "distinct spamKeywords"
  by (simp add: spamKeywords_def)

lemma suspiciousCount_card:
  fixes subject text' html :: string
  shows "suspiciousCount subject text' html =
     card {k \<in> set spamKeywords.
             \<exists>p q. toLowerCase (subject @ '' '' @ text' @ '' '' @ html) = p @ k @ q}"
proof -
  let ?c = "toLowerCase (subject @ '' '' @ text' @ '' '' @ html)"
  have "suspiciousCount subject text' html = length (filter (includesStr ?c) spamKeywords)"
    by (simp add: suspiciousCount_def)
  also have "\<dots> = card ({k. includesStr ?c k} \<inter> set spamKeywords)"
    using distinct_spamKeywords by (rule distinct_length_filter)
  also have "({k. includesStr ?c k} \<inter> set spamKeywords) =
      {k \<in> set spamKeywords. \<exists>p q. ?c = p @ k @ q}"
    by (auto simp: includesStr_iff)
  finally show ?thesis .
qed

lemma capsRule_iff:
  "jsgt (jsdiv (length (filter isUpperAZ s)) (length s)) (3 / 10) \<longleftrightarrow>
     length s \<noteq> 0 \<and>
     (of_nat (length (filter isUpperAZ s)) :: rat) / of_nat (length s) > 3 / 10"
proof (cases "length s = 0")
  case True
  then show ?thesis by (simp add: jsdiv_def)
next
  case False
  then show ?thesis by (simp add: jsdiv_def)
qed

subsection \<open>Traces of the recipient loop\<close>

lemma lookups_Nil [simp]: "lookups [] = []"
  by (simp add: lookups_def)

lemma lookups_Cons:
  "lookups (e # es) =
     (case index (jsSplit CHR ''@'' e) 1 of None \<Rightarrow> [] | Some d \<Rightarrow> [MxLookup d]) @ lookups es"
  by (simp add: lookups_def split: option.splits)

lemma lookups_append: "lookups (xs @ ys) = lookups xs @ lookups ys"
  by (induction xs) (simp_all add: lookups_Cons)

lemma validateDomain_trace:
  "trace (snd (validateDomain env e s)) = trace s @ lookups [e]"
  by (simp add: validateDomain_def lookups_Cons emit_def split: option.splits prod.splits)

lemma validateAll_append:
  "validateAll env (pre @ rest) s =
     (case validateAll env pre s of
        (Inl e, s1) \<Rightarrow> (Inl e, s1)
      | (Inr u, s1) \<Rightarrow> validateAll env rest s1)"
  by (induction pre arbitrary: s) (auto split: prod.splits sum.splits)

lemma validateAll_ok_trace:
  "validateAll env es s = (Inr u, s') \<Longrightarrow> trace s' = trace s @ lookups es"
proof (induction es arbitrary: s)
  case Nil
  then show ?case by simp
next
  case (Cons e es)
  obtain b s1 where vd: "validateDomain env e s = (b, s1)"
    by (cases "validateDomain env e s")
  from Cons.prems vd have rest: "validateAll env es s1 = (Inr u, s')"
    by (auto split: if_splits)
  have "trace s1 = trace s @ lookups [e]"
    using validateDomain_trace[of env e s] vd by simp
  with Cons.IH[OF rest] show ?case
    using lookups_append[of "[e]" es] by simp
qed

lemma transportCalls_append:
  "transportCalls (a @ b) = transportCalls a @ transportCalls b"
  by (simp add: transportCalls_def)

lemma transportCalls_lookups: "transportCalls (lookups es) = []"
proof (induction es)
  case Nil
  then show ?case by (simp add: transportCalls_def)
next
  case (Cons e es)
  have "transportCalls [MxLookup d] = []" for d by (simp add: transportCalls_def)
  moreover have "transportCalls [] = []" by (simp add: transportCalls_def)
  ultimately show ?case using Cons
    by (simp add: lookups_Cons transportCalls_append split: option.splits)
qed

lemma falsy_iff: "\<not> Boolean v \<longleftrightarrow> v = JUndefined \<or> v = JNull \<or> v = JStr []"
  by (cases v) (simp_all add: Boolean_def)

lemma strings_filter_Boolean:
  "map JStr [email. JStr email \<leftarrow> vs, email \<noteq> []] = filter Boolean vs"
proof (induction vs)
  case Nil
  then show ?case by simp
next
  case (Cons v vs)
  then show ?case by (cases v) (simp_all add: Boolean_def)
qed

lemma allRecipients_filter:
  "map JStr (allRecipients emailData) =
     filter Boolean (to emailData # withDefault (cc emailData) [] @ withDefault (bcc emailData) [])"
  unfolding allRecipients_def by (rule strings_filter_Boolean)

lemma allRecipients_falsy:
  assumes "\<forall>v \<in> set (to emailData # withDefault (cc emailData) [] @ withDefault (bcc emailData) []).
             \<not> Boolean v"
  shows "allRecipients emailData = []"
proof -
  have "filter Boolean (to emailData # withDefault (cc emailData) [] @ withDefault (bcc emailData) []) = []"
    using assms by (simp only: filter_False)
  then have "map JStr (allRecipients emailData) = []"
    by (simp only: allRecipients_filter)
  then show ?thesis by simp
qed

subsection \<open>Pauses\<close>

lemma delays_append: "delays (a @ b) = delays a @ delays b"
  by (simp add: delays_def)

lemma delays_lookups: "delays (lookups es) = []"
proof (induction es)
  case Nil
  then show ?case by (simp add: delays_def)
next
  case (Cons e es)
  then show ?case
    by (simp add: lookups_Cons delays_append split: option.splits) (simp add: delays_def)
qed

lemma validateDomain_delays:
  "delays (trace (snd (validateDomain env e s))) = delays (trace s)"
  by (simp add: validateDomain_trace delays_append delays_lookups)

lemma validateAll_delays:
  "delays (trace (snd (validateAll env es s))) = delays (trace s)"
proof (induction es arbitrary: s)
  case Nil
  then show ?case by simp
next
  case (Cons e es)
  show ?case
  proof (cases "validateEmail env e")
    case False
    then show ?thesis by simp
  next
    case True
    obtain b s1 where vd: "validateDomain env e s = (b, s1)"
      by (cases "validateDomain env e s")
    have d1: "delays (trace s1) = delays (trace s)"
      using validateDomain_delays[of env e s] vd by simp
    show ?thesis
    proof (cases b)
      case True
      with \<open>validateEmail env e\<close> vd d1 Cons.IH[of s1] show ?thesis by simp
    next
      case False
      with \<open>validateEmail env e\<close> vd d1 show ?thesis by simp
    qed
  qed
qed

lemma deliver_delays:
  "delays (trace (snd (deliver env m s))) = delays (trace s)"
  by (simp add: deliver_def emit_def delays_def split: prod.splits sum.splits)

lemma sendEmail_delays:
  "delays (trace (snd (sendEmail env emailData s))) = delays (trace s)"
proof -
  obtain r s1 where va: "validateAll env (allRecipients emailData) s = (r, s1)"
    by (cases "validateAll env (allRecipients emailData) s")
  have d1: "delays (trace s1) = delays (trace s)"
    using validateAll_delays[of env "allRecipients emailData" s] va by simp
  obtain st w2 where stp: "stamp env (world s1) = (st, w2)"
    by (cases "stamp env (world s1)")
  have d2: "delays (trace (snd (deliver env m (s1\<lparr>world := w2\<rparr>)))) = delays (trace s)" for m
    using deliver_delays[of env m "s1\<lparr>world := w2\<rparr>"] d1 by simp
  show ?thesis
    using va d1 stp d2
    by (simp add: sendEmail_def split: sum.splits)
qed

subsection \<open>Traversals in order\<close>

lemma thread_Cons:
  "thread f (x # xs) s =
     (fst (f x s) # fst (thread f xs (snd (f x s))), snd (thread f xs (snd (f x s))))"
  by (simp split: prod.splits)

lemma thread_append:
  "thread f (xs @ ys) s =
     (fst (thread f xs s) @ fst (thread f ys (snd (thread f xs s))),
      snd (thread f ys (snd (thread f xs s))))"
proof (induction xs arbitrary: s)
  case Nil
  then show ?case by simp
next
  case (Cons x xs)
  show ?case
    by (simp only: append_Cons thread_Cons Cons.IH fst_conv snd_conv)
qed


lemma thread_snoc_state:
  "snd (thread f (xs @ [x]) s) = snd (f x (snd (thread f xs s)))"
  by (simp add: thread_append thread_Cons del: thread.simps(2))

lemma thread_rest_state:
  "snd (thread f (xs @ ys) s) = snd (thread f ys (snd (thread f xs s)))"
  by (simp add: thread_append)



subsection \<open>The bulk loop on object entries\<close>


lemma entryStep_outcome:
  "fst (entryStep env tpl d s) = outcomeOf d (fst (sendEmail env (spread (Obj d) tpl) s))"
  by (simp add: entryStep_def split: prod.splits)

lemma entryStep_trace:
  "trace (snd (entryStep env tpl d s)) =
     trace (snd (sendEmail env (spread (Obj d) tpl) s)) @
     (if isl (fst (sendEmail env (spread (Obj d) tpl) s)) then [] else [Delay 1000])"
  by (simp add: entryStep_def emit_def split: prod.splits)

lemma entryStep_world:
  "world (snd (entryStep env tpl d s)) = world (snd (sendEmail env (spread (Obj d) tpl) s))"
  by (simp add: entryStep_def emit_def split: prod.splits)

lemma entryStep_success:
  "outcome_success (fst (entryStep env tpl d s)) =
     (\<not> isl (fst (sendEmail env (spread (Obj d) tpl) s)))"
  by (simp add: entryStep_def outcomeOf_def split: prod.splits sum.splits)

lemma bulkLoop_Obj:
  "bulkLoop env tpl (Obj d # rest) results s =
     bulkLoop env tpl rest (results @ [fst (entryStep env tpl d s)]) (snd (entryStep env tpl d s))"
  by (simp add: entryStep_def outcomeOf_def pushSuccess_def pushFailure_def entryTo_def delay_def
           split: prod.splits sum.splits)

lemma bulkLoop_objects:
  "bulkLoop env tpl (map Obj ds) results s =
     (Inr (results @ fst (thread (entryStep env tpl) ds s)),
      snd (thread (entryStep env tpl) ds s))"
proof (induction ds arbitrary: results s)
  case Nil
  then show ?case by simp
next
  case (Cons d ds)
  show ?case
    by (simp only: list.map bulkLoop_Obj Cons.IH thread_Cons fst_conv snd_conv) simp
qed

lemma thread_entryStep_delays:
  "delays (trace (snd (thread (entryStep env tpl) ds s))) =
     delays (trace s) @
     replicate (length (filter outcome_success (fst (thread (entryStep env tpl) ds s)))) 1000"
proof (induction ds arbitrary: s)
  case Nil
  then show ?case by simp
next
  case (Cons d ds)
  let ?s1 = "snd (entryStep env tpl d s)"
  have tr: "delays (trace ?s1) =
      delays (trace s) @ (if outcome_success (fst (entryStep env tpl d s)) then [1000] else [])"
    using entryStep_trace[of env tpl d s] entryStep_success[of env tpl d s]
      sendEmail_delays[of env "spread (Obj d) tpl" s]
    by (simp add: delays_append) (simp add: delays_def)
  show ?case
    using tr Cons.IH[of ?s1]
    by (simp add: thread_Cons replicate_append_same del: thread.simps(2))
qed

subsection \<open>A null entry\<close>

text \<open>
  A \<^verbatim>\<open>null\<close> entry ends the handler in the \<^verbatim>\<open>TypeError\<close> of \<^verbatim>\<open>emailData.to\<close>, also
  when the template alone makes a message that is sent: the push of the \<^verbatim>\<open>try\<close> block
  throws before the pause, and the push of the \<^verbatim>\<open>catch\<close> block throws again.  The
  properties of the bulk loop below therefore speak of entries that are objects.
\<close>

lemma null_entry_sent_without_pause:
  "post_send_bulk sampleEnv nullWithTemplate sampleState =
     (Inl (TypeError ''Cannot read property to of null''),
      \<lparr> world = (),
        trace = [MxLookup ''corp.test'',
                 SendMail (sampleComposed ''amy@corp.test'' ''Meeting tomorrow''),
                 ConsoleLog ''Email sent successfully: <1@relay>''] \<rparr>)"
  by code_simp


section \<open>Properties of the content screener\<close>

text \<open>
  Claim C1 says that \<^verbatim>\<open>validateEmailContent\<close> rejects the subject
  \<^verbatim>\<open>Free Money!!! Click here now to win\<close> with empty text and empty html.  The
  screener does not return false on this input.
\<close>

theorem two_phrase_subject_not_rejected:
  "validateEmailContent ''Free Money!!! Click here now to win'' [] [] \<noteq> False"
  by code_simp

text \<open>
  Claim C1, as amended: \<^verbatim>\<open>validateEmailContent\<close> accepts the subject
  \<^verbatim>\<open>Free Money!!! Click here now to win\<close> with empty text and empty html.  Exactly
  two spam phrases match, \<^verbatim>\<open>free money\<close> and \<^verbatim>\<open>click here now\<close>, which does not
  exceed the threshold of 2, and 3 uppercase letters among 35 characters do not exceed
  the ratio 0.3.
\<close>

theorem two_phrase_subject_accepted:
  "filter (includesStr (toLowerCase (''Free Money!!! Click here now to win'' @ '' '' @ [] @ '' '' @ [])))
      spamKeywords = [''free money'', ''click here now'']
   \<and> suspiciousCount ''Free Money!!! Click here now to win'' [] [] = 2
   \<and> length (filter isUpperAZ (''Free Money!!! Click here now to win'' @ [])) = 3
   \<and> length (''Free Money!!! Click here now to win'' @ []) = 35
   \<and> validateEmailContent ''Free Money!!! Click here now to win'' [] [] = True"
  by code_simp

text \<open>
  Claim C6: the keyword rule counts the distinct spam phrases that occur as substrings
  of the lowercased concatenation \<^verbatim>\<open>subject + " " + text + " " + html\<close> (the count is
  the cardinality of the set of phrases contained, so a phrase that occurs several times
  counts once), and it rejects exactly when that count exceeds 2: above 2 the content is
  rejected, and otherwise the verdict is left to the capitalization rule.
\<close>

theorem keyword_rule_counts_distinct_phrases:
  fixes subject text' html :: string
  shows
  "suspiciousCount subject text' html =
     card {k \<in> set spamKeywords.
             \<exists>p q. toLowerCase (subject @ '' '' @ text' @ '' '' @ html) = p @ k @ q}
   \<and> (suspiciousCount subject text' html > 2 \<longrightarrow> validateEmailContent subject text' html = False)
   \<and> (\<not> suspiciousCount subject text' html > 2 \<longrightarrow>
        validateEmailContent subject text' html =
          (\<not> jsgt (jsdiv (length (filter isUpperAZ (subject @ text'))) (length (subject @ text')))
                (3 / 10)))"
  using suspiciousCount_card[of subject text' html]
  by (simp add: validateEmailContent_def)

theorem keyword_rule_counts_distinct_phrases_witness:
  "suspiciousCount ''Act now: free money, FREE MONEY, free money'' ''act now'' ''<b>risk free</b>'' = 3
   \<and> validateEmailContent ''Act now: free money, FREE MONEY, free money'' ''act now'' ''<b>risk free</b>'' = False
   \<and> suspiciousCount ''free money free money free money'' ''free money'' ''act now'' = 2
   \<and> validateEmailContent ''free money free money free money'' ''free money'' ''act now'' = True"
proof -
  let ?s = "''Act now: free money, FREE MONEY, free money''"
  have c: "suspiciousCount ?s ''act now'' ''<b>risk free</b>'' = 3" by code_simp
  then have h: "suspiciousCount ?s ''act now'' ''<b>risk free</b>'' > 2" by simp
  let ?t = "''free money free money free money''"
  have c2: "suspiciousCount ?t ''free money'' ''act now'' = 2" by code_simp
  then have h2: "\<not> suspiciousCount ?t ''free money'' ''act now'' > 2" by simp
  have caps: "\<not> jsgt (jsdiv (length (filter isUpperAZ (?t @ ''free money'')))
                        (length (?t @ ''free money''))) (3 / 10)"
    by code_simp
  from keyword_rule_counts_distinct_phrases[of ?s "''act now''" "''<b>risk free</b>''"] h
  have r1: "validateEmailContent ?s ''act now'' ''<b>risk free</b>'' = False" by blast
  from keyword_rule_counts_distinct_phrases[of ?t "''free money''" "''act now''"] h2 caps
  have r2: "validateEmailContent ?t ''free money'' ''act now'' = True" by blast
  from c c2 r1 r2 show ?thesis by blast
qed

text \<open>
  Claim C7: when the keyword rule lets the content through, the screener rejects exactly
  when the ratio of the uppercase letters \<^verbatim>\<open>A\<close>..\<^verbatim>\<open>Z\<close> to the number of characters of
  the raw concatenation \<^verbatim>\<open>subject + text\<close> exceeds 0.3; \<^verbatim>\<open>html\<close> has no part in the
  ratio, so two requests that differ only in an \<^verbatim>\<open>html\<close> the keyword rule lets through
  get the same verdict.
\<close>

theorem capitalization_rule_ratio:
  fixes subject text' html :: string
  assumes "suspiciousCount subject text' html \<le> 2"
  shows "(validateEmailContent subject text' html = False) =
           (length (subject @ text') \<noteq> 0 \<and>
            (of_nat (length (filter isUpperAZ (subject @ text'))) :: rat)
               / of_nat (length (subject @ text')) > 3 / 10)
         \<and> (\<forall>html'. suspiciousCount subject text' html' \<le> 2 \<longrightarrow>
               validateEmailContent subject text' html' = validateEmailContent subject text' html)"
proof -
  have verdict: "validateEmailContent subject text' h =
      (\<not> jsgt (jsdiv (length (filter isUpperAZ (subject @ text'))) (length (subject @ text')))
            (3 / 10))"
    if "suspiciousCount subject text' h \<le> 2" for h
    using that by (simp add: validateEmailContent_def)
  have "(validateEmailContent subject text' html = False) =
           (length (subject @ text') \<noteq> 0 \<and>
            (of_nat (length (filter isUpperAZ (subject @ text'))) :: rat)
               / of_nat (length (subject @ text')) > 3 / 10)"
    using verdict[OF assms] capsRule_iff[of "subject @ text'"] by simp
  moreover have "\<forall>html'. suspiciousCount subject text' html' \<le> 2 \<longrightarrow>
               validateEmailContent subject text' html' = validateEmailContent subject text' html"
    using verdict[OF assms] verdict by simp
  ultimately show ?thesis by blast
qed

theorem capitalization_rule_ratio_witness:
  "suspiciousCount ''HELLO THERE THIS IS ALL CAPS TEXT'' [] ''<P>LOUD HTML</P>'' \<le> 2
   \<and> validateEmailContent ''HELLO THERE THIS IS ALL CAPS TEXT'' [] ''<P>LOUD HTML</P>'' = False
   \<and> suspiciousCount ''Hi'' ''there'' ''<P>LOUD HTML</P>'' \<le> 2
   \<and> validateEmailContent ''Hi'' ''there'' ''<P>LOUD HTML</P>'' = True"
proof -
  let ?s = "''HELLO THERE THIS IS ALL CAPS TEXT''" and ?h = "''<P>LOUD HTML</P>''"
  have k1: "suspiciousCount ?s [] ?h \<le> 2" by code_simp
  have k2: "suspiciousCount ''Hi'' ''there'' ?h \<le> 2" by code_simp
  have l1: "length (?s @ []) = 33" and u1: "length (filter isUpperAZ (?s @ [])) = 27"
    by code_simp+
  have l2: "length (''Hi'' @ ''there'') = 7"
    and u2: "length (filter isUpperAZ (''Hi'' @ ''there'')) = 1"
    by code_simp+
  have r1: "validateEmailContent ?s [] ?h = False"
    using capitalization_rule_ratio[OF k1] unfolding l1 u1 by simp
  have r2: "validateEmailContent ''Hi'' ''there'' ?h = True"
    using capitalization_rule_ratio[OF k2] unfolding l2 u2 by simp
  from k1 k2 r1 r2 show ?thesis by blast
qed

text \<open>
  Claim C10: when subject and text are both empty the quotient of the capitalization
  rule is 0/0, that is \<^verbatim>\<open>NaN\<close>, the comparison \<^verbatim>\<open>NaN > 0.3\<close> is false, and so every
  html that holds at most 2 distinct spam phrases is accepted.
\<close>

theorem empty_subject_and_text_accepted:
  fixes html :: string
  shows "jsdiv (length (filter isUpperAZ ([] @ []))) (length ([] @ [] :: string)) = NaN
   \<and> \<not> jsgt NaN (3 / 10)
   \<and> (suspiciousCount [] [] html \<le> 2 \<longrightarrow> validateEmailContent [] [] html = True)"
  by (simp add: validateEmailContent_def jsdiv_def)

theorem empty_subject_and_text_accepted_witness:
  "suspiciousCount [] [] ''<p>FREE MONEY, ACT NOW</p>'' \<le> 2
   \<and> validateEmailContent [] [] ''<p>FREE MONEY, ACT NOW</p>'' = True"
proof -
  have h: "suspiciousCount [] [] ''<p>FREE MONEY, ACT NOW</p>'' \<le> 2" by code_simp
  with empty_subject_and_text_accepted[of "''<p>FREE MONEY, ACT NOW</p>''"]
  show ?thesis by blast
qed


section \<open>Properties of the recipient validator\<close>

text \<open>
  Claim C8: \<^verbatim>\<open>validateEmail\<close> is false for every address that lowercases to one of
  \<^verbatim>\<open>test@test.com\<close>, \<^verbatim>\<open>example@example.com\<close>, \<^verbatim>\<open>admin@admin.com\<close>, whatever
  \<^verbatim>\<open>validator.isEmail\<close> says of it and with no DNS lookup involved; and it is true only
  for addresses that \<^verbatim>\<open>validator.isEmail\<close> accepts and that are not on the denylist.
\<close>

theorem denylist_case_insensitive:
  "(toLowerCase email \<in> {''test@test.com'', ''example@example.com'', ''admin@admin.com''}
      \<longrightarrow> validateEmail env email = False)
   \<and> (validateEmail env email = True
      \<longrightarrow> isEmail env email
          \<and> toLowerCase email \<notin> {''test@test.com'', ''example@example.com'', ''admin@admin.com''})"
  by (auto simp: validateEmail_def isIn_def denylist_def)

theorem denylist_case_insensitive_witness:
  "toLowerCase ''Admin@ADMIN.com'' \<in> {''test@test.com'', ''example@example.com'', ''admin@admin.com''}
   \<and> isEmail sampleEnv ''Admin@ADMIN.com''
   \<and> validateEmail sampleEnv ''Admin@ADMIN.com'' = False
   \<and> validateEmail sampleEnv ''amy@corp.test'' = True
   \<and> isEmail sampleEnv ''amy@corp.test''
   \<and> toLowerCase ''amy@corp.test'' \<notin> {''test@test.com'', ''example@example.com'', ''admin@admin.com''}"
proof -
  have a: "toLowerCase ''Admin@ADMIN.com'' \<in>
      {''test@test.com'', ''example@example.com'', ''admin@admin.com''}"
    by code_simp
  have b: "isEmail sampleEnv ''Admin@ADMIN.com''" by code_simp
  have c: "validateEmail sampleEnv ''amy@corp.test'' = True" by code_simp
  from denylist_case_insensitive[of "''Admin@ADMIN.com''" sampleEnv] a
  have r1: "validateEmail sampleEnv ''Admin@ADMIN.com'' = False" by blast
  from denylist_case_insensitive[of "''amy@corp.test''" sampleEnv] c
  have r2: "isEmail sampleEnv ''amy@corp.test'' \<and>
     toLowerCase ''amy@corp.test'' \<notin> {''test@test.com'', ''example@example.com'', ''admin@admin.com''}"
    by blast
  from a b c r1 r2 show ?thesis by blast
qed


section \<open>Properties of recipient validation in \<^verbatim>\<open>sendEmail\<close>\<close>

text \<open>
  Claim C5: the truthy recipients are checked in the order \<^verbatim>\<open>to\<close>, then \<^verbatim>\<open>cc\<close>, then
  \<^verbatim>\<open>bcc\<close>, each by the syntax-and-denylist check and then by the MX check.  When the
  addresses \<open>pre\<close> before \<open>bad\<close> pass both checks and \<open>bad\<close> fails one of them,
  \<^verbatim>\<open>sendEmail\<close> throws the validation error that names \<open>bad\<close>; the addresses \<open>post\<close>
  after it play no part: the outcome is that of the list cut after \<open>bad\<close>, the only MX
  queries made are those of \<open>pre\<close> (and of \<open>bad\<close> when it failed the MX check), in
  order, and the transport is not called.
\<close>

theorem first_failing_recipient_aborts:
  assumes order:
      "filter Boolean (to emailData # withDefault (cc emailData) [] @ withDefault (bcc emailData) [])
         = map JStr (pre @ bad # post)"
    and pre: "validateAll env pre s = (Inr (), s1)"
    and bad: "\<not> validateEmail env bad \<or> \<not> fst (validateDomain env bad s1)"
  shows "let msg = (if validateEmail env bad then ''Invalid domain for email: ''
                    else ''Invalid email address: '') @ bad;
             s2 = (if validateEmail env bad then snd (validateDomain env bad s1) else s1)
         in sendEmail env emailData s = (Inl (Error msg), s2)
            \<and> validateAll env (pre @ bad # post) s = validateAll env (pre @ [bad]) s
            \<and> trace s2 = trace s @ lookups (pre @ (if validateEmail env bad then [bad] else []))
            \<and> transportCalls (trace s2) = transportCalls (trace s)"
proof -
  define msg where "msg = (if validateEmail env bad then ''Invalid domain for email: ''
                    else ''Invalid email address: '') @ bad"
  define s2 where "s2 = (if validateEmail env bad then snd (validateDomain env bad s1) else s1)"
  have "map JStr (allRecipients emailData) = map JStr (pre @ bad # post)"
    using order by (simp only: allRecipients_filter)
  moreover have "inj JStr" by (simp add: inj_def)
  ultimately have all: "allRecipients emailData = pre @ bad # post"
    by (rule map_injective)
  have step: "\<And>rest. validateAll env (bad # rest) s1 = (Inl (Error msg), s2)"
    using bad by (auto simp: msg_def s2_def split: prod.splits)
  have va: "\<And>rest. validateAll env (pre @ bad # rest) s = (Inl (Error msg), s2)"
    using pre step by (simp add: validateAll_append)
  have a: "sendEmail env emailData s = (Inl (Error msg), s2)"
    using va[of post] all by (simp add: sendEmail_def)
  have b: "validateAll env (pre @ bad # post) s = validateAll env (pre @ [bad]) s"
    using va[of post] va[of "[]"] by simp
  have c: "trace s2 = trace s @ lookups (pre @ (if validateEmail env bad then [bad] else []))"
    using validateAll_ok_trace[OF pre] validateDomain_trace[of env bad s1]
    by (simp add: s2_def lookups_append)
  have d: "transportCalls (trace s2) = transportCalls (trace s)"
    using c by (simp add: transportCalls_append transportCalls_lookups)
  from a b c d show ?thesis
    unfolding Let_def msg_def s2_def by blast
qed

theorem first_failing_recipient_aborts_witness:
  "sendEmail sampleEnv recipientsRequest sampleState =
       (Inl (Error ''Invalid domain for email: bob@nomx.test''),
        \<lparr> world = (), trace = [MxLookup ''corp.test'', MxLookup ''nomx.test''] \<rparr>)"
proof -
  let ?s1 = "\<lparr> world = (), trace = [MxLookup ''corp.test''] \<rparr>"
  have order: "filter Boolean (to recipientsRequest # withDefault (cc recipientsRequest) []
                                 @ withDefault (bcc recipientsRequest) [])
      = map JStr ([''amy@corp.test''] @ ''bob@nomx.test'' # [''not-an-address'', ''eve@corp.test''])"
    by code_simp
  have pre: "validateAll sampleEnv [''amy@corp.test''] sampleState = (Inr (), ?s1)"
    by code_simp
  have ve: "validateEmail sampleEnv ''bob@nomx.test''" by code_simp
  have vd: "validateDomain sampleEnv ''bob@nomx.test'' ?s1 =
      (False, \<lparr> world = (), trace = [MxLookup ''corp.test'', MxLookup ''nomx.test''] \<rparr>)"
    by code_simp
  have bad: "\<not> validateEmail sampleEnv ''bob@nomx.test'' \<or>
             \<not> fst (validateDomain sampleEnv ''bob@nomx.test'' ?s1)"
    using vd by simp
  from first_failing_recipient_aborts[OF order pre bad] ve vd show ?thesis
    by (simp add: Let_def)
qed

text \<open>
  Claim C9: recipient validation skips every falsy entry.  The addresses checked are
  exactly the truthy entries of \<^verbatim>\<open>[to, ...cc, ...bcc]\<close>, in order; a missing \<^verbatim>\<open>to\<close>
  and \<^verbatim>\<open>null\<close>, \<^verbatim>\<open>undefined\<close> or empty-string entries of \<^verbatim>\<open>cc\<close> and \<^verbatim>\<open>bcc\<close> are
  never checked, and a request that has only such entries passes recipient validation
  with no check made and no validation error.
\<close>

theorem falsy_recipients_skipped:
  "map JStr (allRecipients emailData) =
     filter Boolean (to emailData # withDefault (cc emailData) [] @ withDefault (bcc emailData) [])
   \<and> ((\<forall>v \<in> set (to emailData # withDefault (cc emailData) [] @ withDefault (bcc emailData) []).
          v = JUndefined \<or> v = JNull \<or> v = JStr [])
        \<longrightarrow> validateAll env (allRecipients emailData) s = (Inr (), s))"
proof -
  have "allRecipients emailData = []"
    if "\<forall>v \<in> set (to emailData # withDefault (cc emailData) [] @ withDefault (bcc emailData) []).
          v = JUndefined \<or> v = JNull \<or> v = JStr []"
  proof (rule allRecipients_falsy)
    show "\<forall>v \<in> set (to emailData # withDefault (cc emailData) [] @ withDefault (bcc emailData) []).
            \<not> Boolean v"
      using that falsy_iff by blast
  qed
  then show ?thesis
    using allRecipients_filter[of emailData] by simp
qed

theorem falsy_recipients_skipped_witness:
  "to falsyRequest # withDefault (cc falsyRequest) [] @ withDefault (bcc falsyRequest) []
      = [JUndefined, JNull, JStr [], JUndefined]
   \<and> validateAll sampleEnv (allRecipients falsyRequest) sampleState = (Inr (), sampleState)"
proof -
  have l: "to falsyRequest # withDefault (cc falsyRequest) [] @ withDefault (bcc falsyRequest) []
      = [JUndefined, JNull, JStr [], JUndefined]"
    by (simp add: falsyRequest_def withDefault_def)
  then have h: "\<forall>v \<in> set (to falsyRequest # withDefault (cc falsyRequest) []
                              @ withDefault (bcc falsyRequest) []).
          v = JUndefined \<or> v = JNull \<or> v = JStr []"
    by simp
  with falsy_recipients_skipped[of falsyRequest sampleEnv sampleState] l
  show ?thesis by blast
qed


section \<open>Properties of delivery\<close>

text \<open>
  Claim C3 says that when the transport call raises an exception the delivery gateway
  returns a failed result and never propagates the exception.  \<^verbatim>\<open>sendEmail\<close> does
  propagate it: on the sample relay, which refuses the subject \<^verbatim>\<open>bounce\<close>, the call
  ends in the thrown error and returns no result.
\<close>

theorem sendEmail_propagates_transport_failure:
  "fst (sendEmail sampleEnv (sampleMail ''amy@corp.test'' ''bounce'') sampleState)
      = Inl (Error ''connection refused'')"
  by code_simp

text \<open>
  Claim C3, as amended: when the transport call of a composed message raises an
  exception, \<^verbatim>\<open>sendEmail\<close> logs that exception with \<^verbatim>\<open>console.error\<close> and throws it
  on to its caller unchanged, with nothing else done after the transport call; the
  callers catch it and report its message verbatim.  \<^verbatim>\<open>POST /send-email\<close> answers 400
  with \<^verbatim>\<open>{ success: false, error }\<close>.  The bulk loop, for an object entry at any place
  of a batch and under any template, appends \<^verbatim>\<open>{ email, success: false, error }\<close> with
  the entry's own \<^verbatim>\<open>to\<close> to the results so far and goes on to the remaining entries
  with no pause.
\<close>

theorem transport_failure_rethrown_and_reported:
  assumes rec: "validateAll env (allRecipients emailData) s = (Inr (), s1)"
    and con: "validateEmailContentCall env (subject emailData) (text' emailData)
                (orEmpty (html emailData)) = Inr True"
    and htm: "finalHtml env emailData = Inr page"
    and stp: "stamp env (world s1) = (stampText, w2)"
    and tra: "transportSendMail env (compose env emailData page stampText) w2 = (Inl error, w3)"
  shows "let mailOptions = compose env emailData page stampText;
             s3 = s1\<lparr>world := w3, trace := trace s1 @ [SendMail mailOptions, ConsoleError error]\<rparr>
         in deliver env mailOptions (s1\<lparr>world := w2\<rparr>) = (Inl error, s3)
          \<and> sendEmail env emailData s = (Inl error, s3)
          \<and> post_send_email env emailData s =
              (\<lparr> status = 400, body = ErrorBody (message error) \<rparr>, s3)
          \<and> (\<forall>d tpl rest results.
                spread (Obj d) tpl = emailData \<longrightarrow>
                bulkLoop env tpl (Obj d # rest) results s =
                  bulkLoop env tpl rest (results @ [Failed (to d) (message error)]) s3)"
proof -
  define mailOptions where "mailOptions = compose env emailData page stampText"
  define s3 where
    "s3 = s1\<lparr>world := w3, trace := trace s1 @ [SendMail mailOptions, ConsoleError error]\<rparr>"
  have d: "deliver env mailOptions (s1\<lparr>world := w2\<rparr>) = (Inl error, s3)"
    using tra by (simp add: deliver_def emit_def mailOptions_def s3_def)
  have se: "sendEmail env emailData s = (Inl error, s3)"
    using rec con htm stp d by (simp add: sendEmail_def mailOptions_def)
  have r: "post_send_email env emailData s =
      (\<lparr> status = 400, body = ErrorBody (message error) \<rparr>, s3)"
    using se by (simp add: post_send_email_def)
  have b: "bulkLoop env tpl (Obj d # rest) results s =
      bulkLoop env tpl rest (results @ [Failed (to d) (message error)]) s3"
    if "spread (Obj d) tpl = emailData" for d tpl rest results
    using se that by (simp add: pushFailure_def entryTo_def)
  from d se r b show ?thesis
    unfolding Let_def mailOptions_def s3_def by blast
qed

theorem transport_failure_rethrown_and_reported_witness:
  "post_send_email sampleEnv (sampleMail ''amy@corp.test'' ''bounce'') sampleState
      = (\<lparr> status = 400, body = ErrorBody ''connection refused'' \<rparr>,
         \<lparr> world = (),
           trace = [MxLookup ''corp.test'',
                    SendMail (sampleComposed ''amy@corp.test'' ''bounce''),
                    ConsoleError (Error ''connection refused'')] \<rparr>)
   \<and> bulkLoop sampleEnv None
        [Obj (sampleMail ''amy@corp.test'' ''bounce''),
         Obj (sampleMail ''bob@corp.test'' ''Meeting tomorrow'')]
        [Sent (JStr ''eve@corp.test'') ''<0@relay>''] sampleState
      = bulkLoop sampleEnv None [Obj (sampleMail ''bob@corp.test'' ''Meeting tomorrow'')]
          [Sent (JStr ''eve@corp.test'') ''<0@relay>'',
           Failed (JStr ''amy@corp.test'') ''connection refused'']
          \<lparr> world = (),
            trace = [MxLookup ''corp.test'',
                     SendMail (sampleComposed ''amy@corp.test'' ''bounce''),
                     ConsoleError (Error ''connection refused'')] \<rparr>"
proof -
  let ?m = "sampleMail ''amy@corp.test'' ''bounce''"
  let ?page = "createEmailTemplate sampleEnv ''See you at 10am.'' ''notification''"
  let ?s1 = "\<lparr> world = (), trace = [MxLookup ''corp.test''] \<rparr>"
  have rec: "validateAll sampleEnv (allRecipients ?m) sampleState = (Inr (), ?s1)"
    by code_simp
  have con: "validateEmailContentCall sampleEnv (subject ?m) (text' ?m) (orEmpty (html ?m))
      = Inr True"
    by code_simp
  have htm: "finalHtml sampleEnv ?m = Inr ?page"
    by code_simp
  have stp: "stamp sampleEnv (world ?s1) = (''1700000000000.0.5'', ())"
    by code_simp
  have tra: "transportSendMail sampleEnv (compose sampleEnv ?m ?page ''1700000000000.0.5'') ()
      = (Inl (Error ''connection refused''), ())"
    by code_simp
  have sp: "spread (Obj ?m) None = ?m" by (simp add: spread_def)
  note fact = transport_failure_rethrown_and_reported[OF rec con htm stp tra, unfolded Let_def]
  have a: "post_send_email sampleEnv ?m sampleState =
      (\<lparr> status = 400, body = ErrorBody ''connection refused'' \<rparr>,
         \<lparr> world = (),
           trace = [MxLookup ''corp.test'',
                    SendMail (sampleComposed ''amy@corp.test'' ''bounce''),
                    ConsoleError (Error ''connection refused'')] \<rparr>)"
    using fact by (simp add: sampleComposed_def)
  have b: "bulkLoop sampleEnv None
        [Obj ?m, Obj (sampleMail ''bob@corp.test'' ''Meeting tomorrow'')]
        [Sent (JStr ''eve@corp.test'') ''<0@relay>''] sampleState
      = bulkLoop sampleEnv None [Obj (sampleMail ''bob@corp.test'' ''Meeting tomorrow'')]
          ([Sent (JStr ''eve@corp.test'') ''<0@relay>''] @
           [Failed (to ?m) (message (Error ''connection refused''))])
          (?s1\<lparr>world := (),
               trace := trace ?s1 @
                 [SendMail (compose sampleEnv ?m ?page ''1700000000000.0.5''),
                  ConsoleError (Error ''connection refused'')]\<rparr>)"
    using fact sp by blast
  have t: "to ?m = JStr ''amy@corp.test''" by (simp add: sampleMail_def)
  from a b t show ?thesis by (simp add: sampleComposed_def)
qed


section \<open>Properties of bulk sending\<close>

text \<open>
  Claim C2 says that a fixed delay follows every entry's send attempt, whether it
  succeeds or fails.  In the request \<open>bounceThenOk\<close> the relay refuses the first entry
  and takes the second: the second entry is processed straight after the failure of the
  first, and the only pause of the whole request follows the successful second send.
\<close>

theorem bulk_no_delay_after_failed_attempt:
  "trace (snd (post_send_bulk sampleEnv bounceThenOk sampleState)) =
     [MxLookup ''corp.test'',
      SendMail (sampleComposed ''amy@corp.test'' ''bounce''),
      ConsoleError (Error ''connection refused''),
      MxLookup ''corp.test'',
      SendMail (sampleComposed ''bob@corp.test'' ''Meeting tomorrow''),
      ConsoleLog ''Email sent successfully: <1@relay>'',
      Delay 1000]"
  by code_simp

text \<open>
  Claim C2, as amended: in a bulk request whose entries are objects, a fixed delay of
  1000 ms follows every entry whose send succeeds, before the next entry is processed
  (and before the response when the entry is the last), and no delay follows an entry
  whose attempt fails.  The handler leaves the system as the traversal of the entries in
  input order does that runs \<^verbatim>\<open>sendEmail\<close> on each and pauses after it exactly when it
  returned.  At every place of the batch, whatever comes before and after: the effects up
  to and including the entry \<open>d\<close> end with those of \<^verbatim>\<open>sendEmail\<close> on \<open>d\<close>, followed by
  the pause exactly when that call returned and by nothing else; the entries after \<open>d\<close>
  are processed from there; and the pauses of the request are as many as its successful
  entries, each of 1000 ms.
\<close>

theorem bulk_delay_follows_success_only:
  assumes req: "emails reqBody = Array (map Obj ds)"
    and len: "length ds \<le> 10"
  shows "let step = entryStep env (template reqBody) in
           snd (post_send_bulk env reqBody s) = snd (thread step ds s)
         \<and> (\<forall>xs d ys. ds = xs @ d # ys \<longrightarrow>
              (let before = snd (thread step xs s);
                   sent = sendEmail env (spread (Obj d) (template reqBody)) before;
                   after = snd (thread step (xs @ [d]) s)
               in trace after = trace (snd sent) @ (if isl (fst sent) then [] else [Delay 1000])
                  \<and> world after = world (snd sent)
                  \<and> snd (post_send_bulk env reqBody s) = snd (thread step ys after)))
         \<and> delays (trace (snd (post_send_bulk env reqBody s))) =
             delays (trace s) @
             replicate (length (filter outcome_success (fst (thread step ds s)))) 1000"
proof -
  define step where "step = entryStep env (template reqBody)"
  have run: "post_send_bulk env reqBody s =
      (Inr \<lparr> status = 200, body = ResultsBody (fst (thread step ds s)) \<rparr>, snd (thread step ds s))"
    using req len
    by (simp add: post_send_bulk_def bulkLoop_objects step_def)
  then have a: "snd (post_send_bulk env reqBody s) = snd (thread step ds s)" by simp
  have b: "trace (snd (thread step (xs @ [d]) s)) =
             trace (snd (sendEmail env (spread (Obj d) (template reqBody)) (snd (thread step xs s)))) @
             (if isl (fst (sendEmail env (spread (Obj d) (template reqBody)) (snd (thread step xs s))))
              then [] else [Delay 1000])
          \<and> world (snd (thread step (xs @ [d]) s)) =
             world (snd (sendEmail env (spread (Obj d) (template reqBody)) (snd (thread step xs s))))
          \<and> snd (post_send_bulk env reqBody s) =
             snd (thread step ys (snd (thread step (xs @ [d]) s)))"
    if "ds = xs @ d # ys" for xs d ys
  proof -
    have "ds = (xs @ [d]) @ ys" using that by simp
    then have "snd (thread step ds s) = snd (thread step ys (snd (thread step (xs @ [d]) s)))"
      by (simp only: thread_rest_state)
    then show ?thesis
      using a
      by (simp add: thread_snoc_state step_def entryStep_trace entryStep_world)
  qed
  have c: "delays (trace (snd (post_send_bulk env reqBody s))) =
             delays (trace s) @
             replicate (length (filter outcome_success (fst (thread step ds s)))) 1000"
    using a thread_entryStep_delays[of env "template reqBody" ds s] by (simp add: step_def)
  from a b c show ?thesis
    unfolding Let_def step_def by blast
qed

theorem bulk_delay_follows_success_only_witness:
  "delays (trace (snd (post_send_bulk sampleEnv bounceThenOk sampleState))) = [1000]"
proof -
  let ?ds = "[sampleMail ''amy@corp.test'' ''bounce'',
              sampleMail ''bob@corp.test'' ''Meeting tomorrow'']"
  have req: "emails bounceThenOk = Array (map Obj ?ds)"
    by (simp add: bounceThenOk_def)
  have len: "length ?ds \<le> 10" by simp
  have tpl: "template bounceThenOk = None" by (simp add: bounceThenOk_def)
  have out: "filter outcome_success (fst (thread (entryStep sampleEnv None) ?ds sampleState))
      = [Sent (JStr ''bob@corp.test'') ''<1@relay>'']"
    by code_simp
  have start: "delays (trace sampleState) = []" by code_simp
  from bulk_delay_follows_success_only[OF req len, of sampleEnv sampleState]
  have "delays (trace (snd (post_send_bulk sampleEnv bounceThenOk sampleState))) =
      delays (trace sampleState) @
      replicate (length (filter outcome_success
        (fst (thread (entryStep sampleEnv (template bounceThenOk)) ?ds sampleState)))) 1000"
    unfolding Let_def by blast
  with tpl out start show ?thesis by simp
qed





end
